theory Spec2Isabelle
  imports Main "HOL-Library.Word"
begin

section \<open>Constants of the listener\<close>

text \<open>\<^verbatim>\<open>CONFIRMATION_BLOCKS = 12\<close>: how far behind the chain head a scan stops.\<close>

definition CONFIRMATION_BLOCKS :: int where
  "CONFIRMATION_BLOCKS = 12"

section \<open>Python values and exceptions\<close>

text \<open>
  The exceptions the listener can meet. An operation that may raise returns a sum,
  \<open>Inl\<close> carrying the exception.
\<close>

datatype py_exc =
    ConnectionError
  | ProviderConnectionError
  | RequestException
  | IndexError
  | ValueError
  | KeyError
  | TypeError
  | AttributeError
  | JSONDecodeError

text \<open>
  What \<^verbatim>\<open>json.load\<close> can return. Floats are left out: the listener writes none and
  compares none. A JSON object is kept as its members in file order.
\<close>

datatype json =
    JNull
  | JBool bool
  | JInt int
  | JStr string
  | JList "json list"
  | JObj "(string \<times> json) list"

text \<open>
  What the source leaves to its libraries: \<^verbatim>\<open>HexBytes.hex()\<close> gives the digits with a
  leading \<^verbatim>\<open>0x\<close> in hexbytes before 1.0 and bare digits from 1.0 on, and
  \<^verbatim>\<open>list(a_set)\<close> enumerates a set in an order Python does not specify.
\<close>

record runtime =
  hex_prefixed :: bool
  set_order :: "json set \<Rightarrow> json list"

section \<open>Byte strings and their hexadecimal text\<close>

type_synonym bytes = "8 word list"

definition hexdigit :: "nat \<Rightarrow> char" where
  "hexdigit n = ''0123456789abcdef'' ! n"

definition hex_byte :: "8 word \<Rightarrow> string" where
  "hex_byte b = [hexdigit (unat b div 16), hexdigit (unat b mod 16)]"

text \<open>\<^verbatim>\<open>HexBytes.hex()\<close>: two lower-case digits per byte.\<close>

definition hex :: "runtime \<Rightarrow> bytes \<Rightarrow> string" where
  "hex rt bs = (if hex_prefixed rt then ''0x'' else []) @ concat (map hex_byte bs)"

text \<open>\<^verbatim>\<open>s.lstrip(chars)\<close> drops every leading character that occurs in \<open>chars\<close>.\<close>

definition lstrip :: "string \<Rightarrow> string \<Rightarrow> string" where
  "lstrip chars s = dropWhile (\<lambda>c. c \<in> set chars) s"

text \<open>
  Python's \<^verbatim>\<open>int(s, base)\<close> for base 10 and 16 on ASCII text: white space around the
  number is dropped, one sign may lead, base 16 admits a \<^verbatim>\<open>0x\<close> prefix, and single
  underscores may separate digits. Anything else raises ValueError (\<open>None\<close>).
\<close>

definition digit_value :: "nat \<Rightarrow> char \<Rightarrow> nat option" where
  "digit_value b c =
     (let n = (of_char c :: nat);
          d = (if 48 \<le> n \<and> n \<le> 57 then Some (n - 48)
               else if 97 \<le> n \<and> n \<le> 122 then Some (n - 87)
               else if 65 \<le> n \<and> n \<le> 90 then Some (n - 55)
               else None)
      in case d of None \<Rightarrow> None | Some v \<Rightarrow> if v < b then Some v else None)"

fun digits_value :: "nat \<Rightarrow> int \<Rightarrow> string \<Rightarrow> int option" where
  "digits_value b acc [] = None"
| "digits_value b acc [c] =
     (case digit_value b c of None \<Rightarrow> None | Some d \<Rightarrow> Some (int b * acc + int d))"
| "digits_value b acc (c # c' # cs) =
     (case digit_value b c of
        None \<Rightarrow> None
      | Some d \<Rightarrow>
          if c' = CHR ''_'' then digits_value b (int b * acc + int d) cs
          else digits_value b (int b * acc + int d) (c' # cs))"

definition py_isspace :: "char \<Rightarrow> bool" where
  "py_isspace c = (let n = (of_char c :: nat) in n = 32 \<or> (9 \<le> n \<and> n \<le> 13) \<or> (28 \<le> n \<and> n \<le> 31))"

definition strip :: "string \<Rightarrow> string" where
  "strip s = rev (dropWhile py_isspace (rev (dropWhile py_isspace s)))"

definition strip_base_prefix :: "nat \<Rightarrow> string \<Rightarrow> string" where
  "strip_base_prefix b s =
     (if b = 16 \<and> (take 2 s = ''0x'' \<or> take 2 s = ''0X'')
      then (if take 1 (drop 2 s) = ''_'' then drop 3 s else drop 2 s)
      else s)"

definition py_int :: "nat \<Rightarrow> string \<Rightarrow> int option" where
  "py_int b s =
     (let t = strip s;
          neg = (take 1 t = ''-'');
          u = (if take 1 t = ''-'' \<or> take 1 t = ''+'' then drop 1 t else t)
      in case digits_value b 0 (strip_base_prefix b u) of
           None \<Rightarrow> None
         | Some v \<Rightarrow> Some (if neg then - v else v))"

section \<open>EventDataParser\<close>

text \<open>A log as web3 delivers it; the fields the listener reads.\<close>

record raw_log =
  transactionHash :: bytes
  blockNumber :: int
  topics :: "bytes list"
  data :: bytes

text \<open>The dictionary \<^verbatim>\<open>parsed_data\<close>; the two keys shared with the log are prefixed.\<close>

record event =
  ev_transactionHash :: string
  ev_blockNumber :: int
  user :: string
  token :: string
  amount :: int
  destinationChainId :: int

text \<open>\<^verbatim>\<open>xs[i]\<close> for a non-negative index: IndexError out of range.\<close>

definition subscript :: "'a list \<Rightarrow> nat \<Rightarrow> py_exc + 'a" where
  "subscript xs i = (if i < length xs then Inr (xs ! i) else Inl IndexError)"

text \<open>
  \<^verbatim>\<open>parse_token_locked_event\<close>. The slices \<^verbatim>\<open>s[26:]\<close>, \<^verbatim>\<open>data[0:64]\<close> and
  \<^verbatim>\<open>data[64:128]\<close> are \<open>drop\<close> and \<open>take\<close>; the handler turns IndexError and
  ValueError, the only exceptions of the body, into \<^verbatim>\<open>None\<close>.
\<close>

definition parse_token_locked_event :: "runtime \<Rightarrow> raw_log \<Rightarrow> event option" where
  "parse_token_locked_event rt log =
     (let tx_hash = hex rt (transactionHash log);
          block_number = blockNumber log
      in case subscript (topics log) 1 of
           Inl _ \<Rightarrow> None
         | Inr topic1 \<Rightarrow>
             (let user_address = ''0x'' @ drop 26 (hex rt topic1)
              in case subscript (topics log) 2 of
                   Inl _ \<Rightarrow> None
                 | Inr topic2 \<Rightarrow>
                     (let token_address = ''0x'' @ drop 26 (hex rt topic2);
                          d = lstrip ''0x'' (hex rt (data log))
                      in case py_int 16 (take 64 d) of
                           None \<Rightarrow> None
                         | Some amount_raw \<Rightarrow>
                             (case py_int 16 (take 64 (drop 64 d)) of
                                None \<Rightarrow> None
                              | Some destination_chain_id \<Rightarrow>
                                  Some \<lparr>ev_transactionHash = tx_hash,
                                        ev_blockNumber = block_number,
                                        user = user_address,
                                        token = token_address,
                                        amount = amount_raw,
                                        destinationChainId = destination_chain_id\<rparr>))))"

section \<open>Configuration, the outside world and the listener's state\<close>

text \<open>
  The dictionary \<^verbatim>\<open>config\<close>. The first two values come from \<^verbatim>\<open>os.getenv\<close> with no
  default, so they may be Python's \<^verbatim>\<open>None\<close>. For \<open>start_block\<close>, \<open>None\<close> says that
  the dictionary has no such key, which \<^verbatim>\<open>config.get('start_block', ...)\<close> allows for.
\<close>

record config =
  rpc_url :: "string option"
  bridge_contract_address :: "string option"
  relayer_api_endpoint :: string
  event_topic_hash :: string
  start_block :: "int option"

text \<open>The filter passed to \<^verbatim>\<open>w3.eth.get_logs\<close>.\<close>

record filter_params =
  fromBlock :: int
  toBlock :: int
  address :: "string option"
  filter_topics :: "string list"

text \<open>The JSON body posted to the relayer.\<close>

record payload =
  sourceTransactionHash :: string
  recipient :: string
  tokenAddress :: string
  payload_amount :: int
  targetChainId :: int

text \<open>
  What the relayer's endpoint does with one POST: \<^verbatim>\<open>session.post\<close> raises a
  RequestException (time-out, refused connection), or a response comes back with a
  status code; then \<^verbatim>\<open>response.json()\<close>, which the success branch evaluates for its log
  line, either returns or raises the given exception.
\<close>

datatype reply =
    PostRaises
  | Response nat "py_exc option"

text \<open>
  The node and the relayer as one scan cycle meets them: what \<^verbatim>\<open>w3.eth.block_number\<close>
  gives, what \<^verbatim>\<open>w3.eth.get_logs\<close> gives for a filter (\<open>None\<close>: it raises), and the reply
  to a POST, which may depend on how many POSTs were sent before it.
\<close>

record env =
  block_number :: "py_exc + int"
  eth_get_logs :: "filter_params \<Rightarrow> raw_log list option"
  post :: "nat \<Rightarrow> payload \<Rightarrow> reply"

text \<open>The file \<^verbatim>\<open>listener_state.json\<close>: absent, not JSON, or a JSON value.\<close>

datatype disk_file = NoFile | NotJson | Json json

text \<open>
  The listener object together with what it has done to the outside: \<open>state\<close> and
  \<open>processed_txs\<close> are the attributes of \<^verbatim>\<open>self\<close>, \<open>state_file\<close> is the file on disk,
  \<open>log_requests\<close> lists the filters sent to the node and \<open>relay_calls\<close> the payloads
  posted to the relayer with what \<^verbatim>\<open>trigger_token_mint\<close> made of each, oldest first.
\<close>

record machine =
  state :: "string \<rightharpoonup> json"
  processed_txs :: "json set"
  state_file :: disk_file
  log_requests :: "filter_params list"
  relay_calls :: "(payload \<times> (py_exc + bool)) list"

section \<open>ChainConnector\<close>

text \<open>
  \<^verbatim>\<open>get_latest_block_number\<close>: a ProviderConnectionError becomes a ConnectionError,
  any other exception passes through.
\<close>

definition get_latest_block_number :: "env \<Rightarrow> py_exc + int" where
  "get_latest_block_number e =
     (case block_number e of
        Inl x \<Rightarrow> if x = ProviderConnectionError then Inl ConnectionError else Inl x
      | Inr n \<Rightarrow> Inr n)"

text \<open>\<^verbatim>\<open>get_logs\<close>: every exception of the node call is logged and becomes the empty list.\<close>

definition get_logs ::
  "env \<Rightarrow> int \<Rightarrow> int \<Rightarrow> string option \<Rightarrow> string list \<Rightarrow> machine \<Rightarrow> raw_log list \<times> machine" where
  "get_logs e from_block to_block addr tps m =
     (let fp = \<lparr>fromBlock = from_block, toBlock = to_block, address = addr, filter_topics = tps\<rparr>;
          m' = m\<lparr>log_requests := log_requests m @ [fp]\<rparr>
      in case eth_get_logs e fp of
           None \<Rightarrow> ([], m')
         | Some logs \<Rightarrow> (logs, m'))"

section \<open>DestinationChainHandler\<close>

text \<open>
  \<^verbatim>\<open>trigger_token_mint\<close>. \<^verbatim>\<open>raise_for_status\<close> raises an HTTPError, a RequestException,
  for a status from 400 to 599; the handler turns every RequestException into
  \<^verbatim>\<open>False\<close>; any other exception of \<^verbatim>\<open>response.json()\<close> leaves the method.
\<close>

definition trigger_token_mint :: "env \<Rightarrow> event \<Rightarrow> machine \<Rightarrow> (py_exc + bool) \<times> machine" where
  "trigger_token_mint e ev m =
     (let p = \<lparr>sourceTransactionHash = ev_transactionHash ev,
               recipient = user ev,
               tokenAddress = token ev,
               payload_amount = amount ev,
               targetChainId = destinationChainId ev\<rparr>;
          r = (case post e (length (relay_calls m)) p of
                 PostRaises \<Rightarrow> Inr False
               | Response status_code body \<Rightarrow>
                   if 400 \<le> status_code \<and> status_code < 600 then Inr False
                   else if status_code = 200 \<or> status_code = 202 then
                     (case body of
                        None \<Rightarrow> Inr True
                      | Some x \<Rightarrow> if x = RequestException then Inr False else Inl x)
                   else Inr False)
      in (r, m\<lparr>relay_calls := relay_calls m @ [(p, r)]\<rparr>))"

section \<open>BridgeEventListener\<close>

text \<open>
  \<^verbatim>\<open>_process_log\<close>. The first component is the exception that leaves the method, if
  any; what the method did to the listener before stays done.
\<close>

definition process_log :: "runtime \<Rightarrow> env \<Rightarrow> raw_log \<Rightarrow> machine \<Rightarrow> py_exc option \<times> machine" where
  "process_log rt e log m =
     (let tx_hash = hex rt (transactionHash log)
      in if JStr tx_hash \<in> processed_txs m then (None, m)
         else
           (case parse_token_locked_event rt log of
              None \<Rightarrow> (None, m)
            | Some parsed_event \<Rightarrow>
                (case trigger_token_mint e parsed_event m of
                   (Inl x, m') \<Rightarrow> (Some x, m')
                 | (Inr success, m') \<Rightarrow>
                     if success
                     then (None, m'\<lparr>processed_txs := insert (JStr tx_hash) (processed_txs m')\<rparr>)
                     else (None, m'))))"

text \<open>The loop \<^verbatim>\<open>for log in logs: self._process_log(log)\<close>, left at the first exception.\<close>

fun process_logs :: "runtime \<Rightarrow> env \<Rightarrow> raw_log list \<Rightarrow> machine \<Rightarrow> py_exc option \<times> machine" where
  "process_logs rt e [] m = (None, m)"
| "process_logs rt e (log # logs) m =
     (case process_log rt e log m of
        (Some x, m') \<Rightarrow> (Some x, m')
      | (None, m') \<Rightarrow> process_logs rt e logs m')"

text \<open>
  \<^verbatim>\<open>v + 1\<close> for a value read from the state dictionary: an integer (a Boolean counts as
  0 or 1) or a TypeError.
\<close>

definition plus_one :: "json \<Rightarrow> py_exc + int" where
  "plus_one v =
     (case v of
        JInt n \<Rightarrow> Inr (n + 1)
      | JBool b \<Rightarrow> Inr (if b then 2 else 1)
      | _ \<Rightarrow> Inl TypeError)"

text \<open>
  \<^verbatim>\<open>_scan_blocks\<close>, one cycle. Both handlers only log, so every exception inside the
  \<^verbatim>\<open>try\<close> ends the cycle with the listener as it is at that point.
\<close>

definition scan_blocks :: "runtime \<Rightarrow> config \<Rightarrow> env \<Rightarrow> machine \<Rightarrow> machine" where
  "scan_blocks rt cfg e m =
     (case get_latest_block_number e of
        Inl _ \<Rightarrow> m
      | Inr latest_block \<Rightarrow>
          (case state m ''last_scanned_block'' of
             None \<Rightarrow> m
           | Some v \<Rightarrow>
               (case plus_one v of
                  Inl _ \<Rightarrow> m
                | Inr from_block \<Rightarrow>
                    (let to_block = latest_block - CONFIRMATION_BLOCKS
                     in if from_block > to_block then m
                        else
                          (case get_logs e from_block to_block
                                  (bridge_contract_address cfg) [event_topic_hash cfg] m of
                             (logs, m1) \<Rightarrow>
                               (case process_logs rt e logs m1 of
                                  (Some _, m2) \<Rightarrow> m2
                                | (None, m2) \<Rightarrow>
                                    m2\<lparr>state := (state m2)(''last_scanned_block'' \<mapsto> JInt to_block)\<rparr>))))))"

text \<open>
  \<^verbatim>\<open>_save_state\<close>: the dictionary is built first (KeyError when the state has no
  \<^verbatim>\<open>last_scanned_block\<close>), then the file is rewritten as a whole.
\<close>

definition save_state :: "runtime \<Rightarrow> machine \<Rightarrow> py_exc option \<times> machine" where
  "save_state rt m =
     (case state m ''last_scanned_block'' of
        None \<Rightarrow> (Some KeyError, m)
      | Some v \<Rightarrow>
          (None, m\<lparr>state_file :=
             Json (JObj [(''last_scanned_block'', v),
                         (''processed_txs'', JList (set_order rt (processed_txs m)))])\<rparr>))"

text \<open>
  \<^verbatim>\<open>run\<close>: the cycles completed before the interrupt, one environment each, then the
  \<^verbatim>\<open>finally\<close> clause. The interrupt is taken to arrive during the sleep between cycles.
\<close>

fun scan_cycles :: "runtime \<Rightarrow> config \<Rightarrow> env list \<Rightarrow> machine \<Rightarrow> machine" where
  "scan_cycles rt cfg [] m = m"
| "scan_cycles rt cfg (e # es) m = scan_cycles rt cfg es (scan_blocks rt cfg e m)"

definition run :: "runtime \<Rightarrow> config \<Rightarrow> env list \<Rightarrow> machine \<Rightarrow> py_exc option \<times> machine" where
  "run rt cfg es m = save_state rt (scan_cycles rt cfg es m)"

text \<open>The checkpoint as the claims read it: the integer under \<^verbatim>\<open>last_scanned_block\<close>.\<close>

definition last_scanned :: "machine \<Rightarrow> int option" where
  "last_scanned m =
     (case state m ''last_scanned_block'' of
        Some (JInt n) \<Rightarrow> Some n
      | _ \<Rightarrow> None)"

text \<open>
  The checkpoint of \<open>m'\<close> is not behind that of \<open>m\<close>: no processed transaction is lost,
  and an integer \<^verbatim>\<open>last_scanned_block\<close> is still an integer and not smaller.
\<close>

definition checkpoint_kept :: "machine \<Rightarrow> machine \<Rightarrow> bool" where
  "checkpoint_kept m m' =
     (processed_txs m \<subseteq> processed_txs m' \<and>
      (case last_scanned m of
         None \<Rightarrow> True
       | Some n \<Rightarrow> (case last_scanned m' of None \<Rightarrow> False | Some n' \<Rightarrow> n \<le> n')))"

text \<open>
  In a list of relay calls, oldest first, a call that \<^verbatim>\<open>trigger_token_mint\<close> answered
  with \<^verbatim>\<open>True\<close> is the last one for its transaction.
\<close>

fun acked_last :: "(payload \<times> (py_exc + bool)) list \<Rightarrow> bool" where
  "acked_last [] = True"
| "acked_last (c # cs) =
     ((if snd c = Inr True
       then sourceTransactionHash (fst c) \<notin> set (map (\<lambda>d. sourceTransactionHash (fst d)) cs)
       else True)
      \<and> acked_last cs)"

text \<open>
  What \<^verbatim>\<open>_process_log\<close> maintains: on top of \<open>acked_last\<close>, every transaction whose
  relay call succeeded is in \<open>processed_txs\<close>.
\<close>

definition dedup_inv :: "machine \<Rightarrow> bool" where
  "dedup_inv m =
     (acked_last (relay_calls m) \<and>
      (\<forall>c \<in> set (relay_calls m).
         snd c = Inr True \<longrightarrow> JStr (sourceTransactionHash (fst c)) \<in> processed_txs m))"

section \<open>Start-up\<close>

text \<open>
  The dictionary \<^verbatim>\<open>json.load\<close> builds from an object: a repeated name keeps its last
  value.
\<close>

definition dict_of :: "(string \<times> json) list \<Rightarrow> (string \<rightharpoonup> json)" where
  "dict_of kvs = map_of (rev kvs)"

definition hashable :: "json \<Rightarrow> bool" where
  "hashable v = (case v of JList _ \<Rightarrow> False | JObj _ \<Rightarrow> False | _ \<Rightarrow> True)"

text \<open>
  \<^verbatim>\<open>set(v)\<close>: the elements of a list (TypeError when one is a list or a dictionary),
  the characters of a string, the keys of a dictionary; TypeError for a value that is not
  iterable. The listener only ever asks whether a string is in the set, and Python's
  identification of \<^verbatim>\<open>True\<close> with 1 does not change the answer.
\<close>

definition py_set :: "json \<Rightarrow> py_exc + json set" where
  "py_set v =
     (case v of
        JList xs \<Rightarrow> if list_all hashable xs then Inr (set xs) else Inl TypeError
      | JStr s \<Rightarrow> Inr ((\<lambda>c. JStr [c]) ` set s)
      | JObj kvs \<Rightarrow> Inr ((\<lambda>kv. JStr (fst kv)) ` set kvs)
      | _ \<Rightarrow> Inl TypeError)"

text \<open>
  \<^verbatim>\<open>_load_state\<close>. With no file, the default of \<^verbatim>\<open>config.get\<close> is an argument and so
  is evaluated first: the node is asked for its height whether or not the configuration
  has a \<^verbatim>\<open>start_block\<close>.
\<close>

definition load_state :: "config \<Rightarrow> env \<Rightarrow> disk_file \<Rightarrow> py_exc + json" where
  "load_state cfg e f =
     (case f of
        Json v \<Rightarrow> Inr v
      | NotJson \<Rightarrow> Inl JSONDecodeError
      | NoFile \<Rightarrow>
          (case get_latest_block_number e of
             Inl x \<Rightarrow> Inl x
           | Inr latest \<Rightarrow>
               (let start = (case start_block cfg of Some b \<Rightarrow> b | None \<Rightarrow> latest)
                in Inr (JObj [(''last_scanned_block'', JInt start),
                              (''processed_txs'', JList [])]))))"

text \<open>
  \<^verbatim>\<open>BridgeEventListener.__init__\<close>. \<open>connect\<close> is \<^verbatim>\<open>ChainConnector.__init__\<close> on the
  configured URL: \<open>None\<close> when the node answers, else the exception it re-raises.
  \<^verbatim>\<open>self.state.get\<close> exists only on a dictionary.
\<close>

definition init_listener ::
  "(string option \<Rightarrow> py_exc option) \<Rightarrow> config \<Rightarrow> env \<Rightarrow> disk_file \<Rightarrow> py_exc + machine" where
  "init_listener connect cfg e f =
     (case connect (rpc_url cfg) of
        Some x \<Rightarrow> Inl x
      | None \<Rightarrow>
          (case load_state cfg e f of
             Inl x \<Rightarrow> Inl x
           | Inr (JObj kvs) \<Rightarrow>
               (case py_set (case dict_of kvs ''processed_txs'' of
                               None \<Rightarrow> JList []
                             | Some v \<Rightarrow> v) of
                  Inl x \<Rightarrow> Inl x
                | Inr s \<Rightarrow>
                    Inr \<lparr>state = dict_of kvs, processed_txs = s, state_file = f,
                         log_requests = [], relay_calls = []\<rparr>)
           | Inr _ \<Rightarrow> Inl AttributeError))"

text \<open>
  \<^verbatim>\<open>main\<close> up to the call of \<^verbatim>\<open>listener.run()\<close>: it raises, returns after the
  configuration check, or enters the loop with a configuration and a listener.
  \<open>environ\<close> is the process environment after \<^verbatim>\<open>load_dotenv()\<close>.
\<close>

datatype outcome = Raised py_exc | Returned | Running config machine

definition getenv :: "(string \<rightharpoonup> string) \<Rightarrow> string \<Rightarrow> string \<Rightarrow> string" where
  "getenv environ name dflt = (case environ name of None \<Rightarrow> dflt | Some v \<Rightarrow> v)"

text \<open>Truth value of an optional string: \<^verbatim>\<open>None\<close> and the empty string are false.\<close>

definition truthy :: "string option \<Rightarrow> bool" where
  "truthy v = (case v of None \<Rightarrow> False | Some s \<Rightarrow> s \<noteq> [])"

definition main ::
  "(string \<rightharpoonup> string) \<Rightarrow> (string option \<Rightarrow> py_exc option) \<Rightarrow> env \<Rightarrow> disk_file \<Rightarrow> outcome" where
  "main environ connect e f =
     (let TOKENS_LOCKED_EVENT_HASH = getenv environ ''TOKENS_LOCKED_EVENT_HASH'' ''0x123...''
      in case py_int 10 (getenv environ ''START_BLOCK'' ''0'') of
           None \<Rightarrow> Raised ValueError
         | Some sb \<Rightarrow>
             (let cfg = \<lparr>rpc_url = environ ''SOURCE_CHAIN_RPC_URL'',
                         bridge_contract_address = environ ''BRIDGE_CONTRACT_ADDRESS'',
                         relayer_api_endpoint =
                           getenv environ ''RELAYER_API_ENDPOINT''
                             ''https://api.example-relayer.com/submit'',
                         event_topic_hash = TOKENS_LOCKED_EVENT_HASH,
                         start_block = Some sb\<rparr>
              in if \<not> (truthy (rpc_url cfg) \<and> truthy (bridge_contract_address cfg)
                        \<and> truthy (Some (event_topic_hash cfg)))
                 then Returned
                 else
                   (case init_listener connect cfg e f of
                      Inl x \<Rightarrow> Raised x
                    | Inr m \<Rightarrow> Running cfg m)))"

section \<open>Scenarios\<close>

text \<open>
  Concrete runtimes, configurations, listeners and environments for the scenarios the
  theorems below are evaluated on. \<open>node logs\<close> is a node whose chain holds \<open>logs\<close>: it
  answers a filter with the logs of the blocks in its range.
\<close>

definition tx_a :: bytes where
  "tx_a = replicate 32 0xab"

definition example_runtime :: "bool \<Rightarrow> runtime" where
  "example_runtime prefixed =
     \<lparr>hex_prefixed = prefixed,
      set_order = (\<lambda>S. filter (\<lambda>x. x \<in> S) [JStr (''0x'' @ concat (map hex_byte tx_a))])\<rparr>"

definition example_config :: config where
  "example_config =
     \<lparr>rpc_url = Some ''http://node'',
      bridge_contract_address = Some ''0xb41d9e'',
      relayer_api_endpoint = ''https://api.example-relayer.com/submit'',
      event_topic_hash = ''0x123...'',
      start_block = Some 0\<rparr>"

definition machine_at :: "int \<Rightarrow> machine" where
  "machine_at n =
     \<lparr>state = [''last_scanned_block'' \<mapsto> JInt n], processed_txs = {}, state_file = NoFile,
      log_requests = [], relay_calls = []\<rparr>"

definition node :: "raw_log list \<Rightarrow> filter_params \<Rightarrow> raw_log list option" where
  "node logs fp =
     Some (filter (\<lambda>l. fromBlock fp \<le> blockNumber l \<and> blockNumber l \<le> toBlock fp) logs)"

definition quiet_env :: "int \<Rightarrow> env" where
  "quiet_env h =
     \<lparr>block_number = Inr h, eth_get_logs = node [], post = (\<lambda>_ _. Response 200 None)\<rparr>"

text \<open>
  A \<^verbatim>\<open>TokensLocked\<close> log of block 60: three 32-byte topics and two 32-byte data words,
  the amount 1000 (\<^verbatim>\<open>0x3e8\<close>) and the destination chain 74565 (\<^verbatim>\<open>0x12345\<close>).
\<close>

definition locked_log :: raw_log where
  "locked_log =
     \<lparr>transactionHash = tx_a,
      blockNumber = 60,
      topics = [replicate 32 0x11,
                replicate 12 0 @ replicate 20 0xaa,
                replicate 12 0 @ replicate 20 0xbb],
      data = replicate 30 0 @ [0x03, 0xe8] @ replicate 29 0 @ [0x01, 0x23, 0x45]\<rparr>"

text \<open>A chain at height \<open>h\<close> that holds \<open>logs\<close>, with a relayer that answers every POST alike.\<close>

definition chain_env :: "int \<Rightarrow> raw_log list \<Rightarrow> reply \<Rightarrow> env" where
  "chain_env h logs r =
     \<lparr>block_number = Inr h, eth_get_logs = node logs, post = (\<lambda>_ _. r)\<rparr>"

text \<open>A node that knows its height \<open>h\<close> but fails every log query.\<close>

definition failing_env :: "int \<Rightarrow> env" where
  "failing_env h =
     \<lparr>block_number = Inr h, eth_get_logs = (\<lambda>_. None), post = (\<lambda>_ _. Response 200 None)\<rparr>"

text \<open>An environment with the two variables that have no default, and nothing else.\<close>

definition example_environ :: "string \<rightharpoonup> string" where
  "example_environ =
     [''SOURCE_CHAIN_RPC_URL'' \<mapsto> ''http://node'', ''BRIDGE_CONTRACT_ADDRESS'' \<mapsto> ''0xb41d9e'']"

text \<open>A chain as in \<open>chain_env\<close> whose relayer rejects the first POST and accepts the rest.\<close>

definition flaky_env :: "int \<Rightarrow> raw_log list \<Rightarrow> env" where
  "flaky_env h logs =
     \<lparr>block_number = Inr h, eth_get_logs = node logs,
      post = (\<lambda>n _. if n = 0 then Response 500 None else Response 200 None)\<rparr>"

text \<open>
  A second \<^verbatim>\<open>TokensLocked\<close> log, of another transaction, and the payloads the listener
  posts for the two logs under a runtime whose \<^verbatim>\<open>hex()\<close> writes the prefix.
\<close>

definition tx_b :: bytes where
  "tx_b = replicate 32 0xcd"

definition locked_log_b :: raw_log where
  "locked_log_b = locked_log\<lparr>transactionHash := tx_b\<rparr>"

definition payload_a :: payload where
  "payload_a =
     \<lparr>sourceTransactionHash = ''0xabababababababababababababababababababababababababababababababab'',
      recipient = ''0xaaaaaaaaaaaaaaaaaaaaaaaaaaaaaaaaaaaaaaaa'',
      tokenAddress = ''0xbbbbbbbbbbbbbbbbbbbbbbbbbbbbbbbbbbbbbbbb'',
      payload_amount = 1000 * 16 ^ 61 + 18,
      targetChainId = 837\<rparr>"

definition payload_b :: payload where
  "payload_b =
     payload_a\<lparr>sourceTransactionHash :=
       ''0xcdcdcdcdcdcdcdcdcdcdcdcdcdcdcdcdcdcdcdcdcdcdcdcdcdcdcdcdcdcdcdcd''\<rparr>"

section \<open>What one cycle touches\<close>

lemma trigger_token_mint_frame:
  "trigger_token_mint e ev m = (r, m') \<Longrightarrow>
     state m' = state m \<and> processed_txs m' = processed_txs m \<and> state_file m' = state_file m
     \<and> log_requests m' = log_requests m
     \<and> relay_calls m' =
         relay_calls m @
           [(\<lparr>sourceTransactionHash = ev_transactionHash ev,
              recipient = user ev,
              tokenAddress = token ev,
              payload_amount = amount ev,
              targetChainId = destinationChainId ev\<rparr>, r)]"
  by (auto simp: trigger_token_mint_def Let_def)

lemma process_log_frame:
  "process_log rt e log m = (x, m') \<Longrightarrow>
     state m' = state m \<and> state_file m' = state_file m \<and> log_requests m' = log_requests m
     \<and> processed_txs m \<subseteq> processed_txs m'"
  by (auto simp: process_log_def Let_def split: if_splits option.splits prod.splits sum.splits
      dest!: trigger_token_mint_frame)

lemma process_logs_frame:
  "process_logs rt e logs m = (x, m') \<Longrightarrow>
     state m' = state m \<and> state_file m' = state_file m \<and> log_requests m' = log_requests m
     \<and> processed_txs m \<subseteq> processed_txs m'"
proof (induction logs arbitrary: m)
  case Nil
  then show ?case by simp
next
  case (Cons log logs)
  obtain y m1 where s: "process_log rt e log m = (y, m1)" by (cases "process_log rt e log m")
  note f = process_log_frame [OF s]
  show ?case
  proof (cases y)
    case None
    with Cons.prems s have "process_logs rt e logs m1 = (x, m')" by simp
    from Cons.IH [OF this] f show ?thesis by auto
  next
    case (Some a)
    with Cons.prems s have "m' = m1" by simp
    with f show ?thesis by simp
  qed
qed

lemma get_logs_frame:
  "get_logs e a b addr tps m = (logs, m') \<Longrightarrow>
     m' = m\<lparr>log_requests := log_requests m @ [\<lparr>fromBlock = a, toBlock = b, address = addr, filter_topics = tps\<rparr>]\<rparr>"
  by (auto simp: get_logs_def Let_def split: option.splits)

lemma scan_blocks_requests:
  "log_requests (scan_blocks rt cfg e m) =
     (case get_latest_block_number e of
        Inl _ \<Rightarrow> log_requests m
      | Inr h \<Rightarrow>
          (case state m ''last_scanned_block'' of
             None \<Rightarrow> log_requests m
           | Some v \<Rightarrow>
               (case plus_one v of
                  Inl _ \<Rightarrow> log_requests m
                | Inr n \<Rightarrow>
                    if n > h - 12 then log_requests m
                    else log_requests m @
                      [\<lparr>fromBlock = n, toBlock = h - 12, address = bridge_contract_address cfg,
                        filter_topics = [event_topic_hash cfg]\<rparr>])))"
  by (auto simp: scan_blocks_def Let_def CONFIRMATION_BLOCKS_def
      split: sum.splits option.splits prod.splits if_splits
      dest!: get_logs_frame process_logs_frame)

section \<open>Confirmation depth\<close>

text \<open>
  Claim C5. Whatever the listener's state, a cycle that reads the chain height \<open>h\<close> sends
  the node at most filters whose blocks are all at most \<open>h - 12\<close>. With height 100 and
  \<open>last_scanned_block\<close> 50 the one filter sent is for the blocks 51 to 88; with height 62
  the cycle leaves the listener and the outside as they are.
\<close>

theorem scan_blocks_confirmation_safety:
  "(block_number e = Inr h \<longrightarrow>
      (\<exists>new. log_requests (scan_blocks rt cfg e m) = log_requests m @ new \<and>
         (\<forall>fp \<in> set new. \<forall>b. fromBlock fp \<le> b \<and> b \<le> toBlock fp \<longrightarrow> b \<le> h - 12)))
   \<and> (block_number e = Inr 100 \<and> state m ''last_scanned_block'' = Some (JInt 50) \<longrightarrow>
        log_requests (scan_blocks rt cfg e m) = log_requests m @
          [\<lparr>fromBlock = 51, toBlock = 88, address = bridge_contract_address cfg,
            filter_topics = [event_topic_hash cfg]\<rparr>])
   \<and> (block_number e = Inr 62 \<and> state m ''last_scanned_block'' = Some (JInt 50) \<longrightarrow>
        scan_blocks rt cfg e m = m)"
proof (intro conjI impI)
  assume h: "block_number e = Inr h"
  then have g: "get_latest_block_number e = Inr h"
    by (simp add: get_latest_block_number_def)
  define new where "new = drop (length (log_requests m)) (log_requests (scan_blocks rt cfg e m))"
  have "log_requests (scan_blocks rt cfg e m) = log_requests m @ new"
    unfolding new_def by (simp add: scan_blocks_requests g split: option.splits sum.splits)
  moreover have "\<forall>fp \<in> set new. \<forall>b. fromBlock fp \<le> b \<and> b \<le> toBlock fp \<longrightarrow> b \<le> h - 12"
    unfolding new_def by (simp add: scan_blocks_requests g split: option.splits sum.splits)
  ultimately show "\<exists>new. log_requests (scan_blocks rt cfg e m) = log_requests m @ new \<and>
         (\<forall>fp \<in> set new. \<forall>b. fromBlock fp \<le> b \<and> b \<le> toBlock fp \<longrightarrow> b \<le> h - 12)"
    by blast
next
  assume "block_number e = Inr 100 \<and> state m ''last_scanned_block'' = Some (JInt 50)"
  then show "log_requests (scan_blocks rt cfg e m) = log_requests m @
          [\<lparr>fromBlock = 51, toBlock = 88, address = bridge_contract_address cfg,
            filter_topics = [event_topic_hash cfg]\<rparr>]"
    by (simp add: scan_blocks_requests get_latest_block_number_def plus_one_def)
next
  assume "block_number e = Inr 62 \<and> state m ''last_scanned_block'' = Some (JInt 50)"
  then show "scan_blocks rt cfg e m = m"
    by (simp add: scan_blocks_def get_latest_block_number_def plus_one_def CONFIRMATION_BLOCKS_def)
qed

theorem scan_blocks_confirmation_safety_witness:
  "block_number (quiet_env 100) = Inr 100
   \<and> state (machine_at 50) ''last_scanned_block'' = Some (JInt 50)
   \<and> log_requests (scan_blocks (example_runtime True) example_config (quiet_env 100) (machine_at 50)) =
       [\<lparr>fromBlock = 51, toBlock = 88, address = Some ''0xb41d9e'', filter_topics = [''0x123...'']\<rparr>]
   \<and> block_number (quiet_env 62) = Inr 62
   \<and> scan_blocks (example_runtime True) example_config (quiet_env 62) (machine_at 50) = machine_at 50"
  using scan_blocks_confirmation_safety [of "quiet_env 100" 100 "example_runtime True" example_config "machine_at 50"]
    scan_blocks_confirmation_safety [of "quiet_env 62" 62 "example_runtime True" example_config "machine_at 50"]
  by (simp add: quiet_env_def machine_at_def example_config_def)

section \<open>The checkpoint never moves back\<close>

lemma checkpoint_kept_refl: "checkpoint_kept m m"
  by (simp add: checkpoint_kept_def split: option.splits)

lemma checkpoint_kept_trans:
  "checkpoint_kept m1 m2 \<Longrightarrow> checkpoint_kept m2 m3 \<Longrightarrow> checkpoint_kept m1 m3"
  by (auto simp: checkpoint_kept_def split: option.splits)

lemma checkpoint_kept_same_state:
  "state m' = state m \<Longrightarrow> processed_txs m \<subseteq> processed_txs m' \<Longrightarrow> checkpoint_kept m m'"
  by (simp add: checkpoint_kept_def last_scanned_def split: option.splits json.splits)

lemma scan_blocks_state:
  "state (scan_blocks rt cfg e m) =
     (case get_latest_block_number e of
        Inl _ \<Rightarrow> state m
      | Inr h \<Rightarrow>
          (case state m ''last_scanned_block'' of
             None \<Rightarrow> state m
           | Some v \<Rightarrow>
               (case plus_one v of
                  Inl _ \<Rightarrow> state m
                | Inr n \<Rightarrow>
                    if n > h - 12 then state m
                    else (case process_logs rt e
                                 (fst (get_logs e n (h - 12) (bridge_contract_address cfg) [event_topic_hash cfg] m))
                                 (snd (get_logs e n (h - 12) (bridge_contract_address cfg) [event_topic_hash cfg] m)) of
                            (Some _, _) \<Rightarrow> state m
                          | (None, _) \<Rightarrow> (state m)(''last_scanned_block'' \<mapsto> JInt (h - 12))))))"
  by (auto simp: scan_blocks_def Let_def CONFIRMATION_BLOCKS_def
      split: sum.splits option.splits prod.splits if_splits
      dest!: get_logs_frame process_logs_frame)

lemma scan_blocks_processed_txs:
  "processed_txs m \<subseteq> processed_txs (scan_blocks rt cfg e m)"
  by (auto simp: scan_blocks_def Let_def
      split: sum.splits option.splits prod.splits if_splits
      dest!: get_logs_frame process_logs_frame)

lemma scan_blocks_state_file:
  "state_file (scan_blocks rt cfg e m) = state_file m"
  by (auto simp: scan_blocks_def Let_def
      split: sum.splits option.splits prod.splits if_splits
      dest!: get_logs_frame process_logs_frame)

lemma scan_blocks_kept: "checkpoint_kept m (scan_blocks rt cfg e m)"
  unfolding checkpoint_kept_def
  by (auto simp: scan_blocks_processed_txs [THEN subsetD] last_scanned_def scan_blocks_state plus_one_def
      split: option.splits json.splits sum.splits prod.splits)

lemma scan_cycles_kept: "checkpoint_kept m (scan_cycles rt cfg es m)"
proof (induction es arbitrary: m)
  case Nil
  show ?case by (simp add: checkpoint_kept_refl)
next
  case (Cons e es)
  show ?case
    using checkpoint_kept_trans [OF scan_blocks_kept Cons.IH] by simp
qed

lemma save_state_frame:
  "state (snd (save_state rt m)) = state m \<and> processed_txs (snd (save_state rt m)) = processed_txs m
   \<and> log_requests (snd (save_state rt m)) = log_requests m \<and> relay_calls (snd (save_state rt m)) = relay_calls m"
  by (simp add: save_state_def split: option.splits)

text \<open>
  Claim C7. Each operation of the listener, \<^verbatim>\<open>_process_log\<close>, \<^verbatim>\<open>_scan_blocks\<close>,
  \<^verbatim>\<open>_save_state\<close>, any number of cycles and the whole of \<^verbatim>\<open>run\<close>, leaves a checkpoint
  that is not behind the one it found: \<open>processed_txs\<close> has lost no element and
  \<^verbatim>\<open>last_scanned_block\<close> has not decreased.
\<close>

theorem checkpoint_monotone:
  "checkpoint_kept m (snd (process_log rt e log m))
   \<and> checkpoint_kept m (scan_blocks rt cfg e m)
   \<and> checkpoint_kept m (snd (save_state rt m))
   \<and> checkpoint_kept m (scan_cycles rt cfg es m)
   \<and> checkpoint_kept m (snd (run rt cfg es m))"
proof (intro conjI)
  obtain x m' where p: "process_log rt e log m = (x, m')"
    by (cases "process_log rt e log m")
  from process_log_frame [OF p] show "checkpoint_kept m (snd (process_log rt e log m))"
    by (simp add: p checkpoint_kept_same_state)
  show "checkpoint_kept m (scan_blocks rt cfg e m)" by (rule scan_blocks_kept)
  show s: "checkpoint_kept m (snd (save_state rt m))" for m
    by (simp add: checkpoint_kept_same_state save_state_frame)
  show c: "checkpoint_kept m (scan_cycles rt cfg es m)" by (rule scan_cycles_kept)
  from c s [of "scan_cycles rt cfg es m"] show "checkpoint_kept m (snd (run rt cfg es m))"
    unfolding run_def by (rule checkpoint_kept_trans)
qed

theorem checkpoint_monotone_witness:
  "last_scanned (machine_at 50) = Some 50
   \<and> last_scanned (scan_blocks (example_runtime True) example_config
        (chain_env 100 [locked_log] (Response 200 None)) (machine_at 50)) = Some 88
   \<and> processed_txs (machine_at 50) = {}
   \<and> processed_txs (scan_blocks (example_runtime True) example_config
        (chain_env 100 [locked_log] (Response 200 None)) (machine_at 50)) =
       {JStr ''0xabababababababababababababababababababababababababababababababab''}
   \<and> checkpoint_kept (machine_at 50) (scan_blocks (example_runtime True) example_config
        (chain_env 100 [locked_log] (Response 200 None)) (machine_at 50))"
proof -
  have "last_scanned (machine_at 50) = Some 50
   \<and> last_scanned (scan_blocks (example_runtime True) example_config
        (chain_env 100 [locked_log] (Response 200 None)) (machine_at 50)) = Some 88
   \<and> processed_txs (machine_at 50) = {}
   \<and> processed_txs (scan_blocks (example_runtime True) example_config
        (chain_env 100 [locked_log] (Response 200 None)) (machine_at 50)) =
       {JStr ''0xabababababababababababababababababababababababababababababababab''}"
    by code_simp
  with checkpoint_monotone [of "machine_at 50" "example_runtime True"
      "chain_env 100 [locked_log] (Response 200 None)" locked_log example_config "[]"]
  show ?thesis by blast
qed

section \<open>When the checkpoint reaches the disk\<close>

lemma scan_cycles_state_file:
  "state_file (scan_cycles rt cfg es m) = state_file m"
  by (induction es arbitrary: m) (simp_all add: scan_blocks_state_file)

lemma scan_blocks_keeps_key:
  "state m ''last_scanned_block'' = Some v \<Longrightarrow>
     \<exists>v'. state (scan_blocks rt cfg e m) ''last_scanned_block'' = Some v'"
  by (auto simp: scan_blocks_state split: sum.splits option.splits prod.splits)

lemma scan_cycles_keeps_key:
  "state m ''last_scanned_block'' = Some v \<Longrightarrow>
     \<exists>v'. state (scan_cycles rt cfg es m) ''last_scanned_block'' = Some v'"
proof (induction es arbitrary: m v)
  case Nil
  then show ?case by simp
next
  case (Cons e es)
  from scan_blocks_keeps_key [OF Cons.prems] obtain w
    where "state (scan_blocks rt cfg e m) ''last_scanned_block'' = Some w" by blast
  from Cons.IH [OF this] show ?case by simp
qed

text \<open>
  Claim C1, as the code has it. A scan cycle does not write the state file: after one
  cycle, and after any number of them, the file is what it was before. The checkpoint is
  written when the loop is left: \<^verbatim>\<open>run\<close> ends by rewriting the file with the
  \<^verbatim>\<open>last_scanned_block\<close> and the \<open>processed_txs\<close> the listener holds then.
\<close>

theorem checkpoint_written_on_shutdown_only:
  "state_file (scan_blocks rt cfg e m) = state_file m
   \<and> state_file (scan_cycles rt cfg es m) = state_file m
   \<and> (state m ''last_scanned_block'' \<noteq> None \<longrightarrow>
        (\<exists>v. state (scan_cycles rt cfg es m) ''last_scanned_block'' = Some v \<and>
           run rt cfg es m =
             (None, (scan_cycles rt cfg es m)\<lparr>state_file :=
                Json (JObj [(''last_scanned_block'', v),
                            (''processed_txs'',
                             JList (set_order rt (processed_txs (scan_cycles rt cfg es m))))])\<rparr>)))"
proof (intro conjI impI)
  show "state_file (scan_blocks rt cfg e m) = state_file m"
    by (rule scan_blocks_state_file)
  show "state_file (scan_cycles rt cfg es m) = state_file m"
    by (rule scan_cycles_state_file)
  assume "state m ''last_scanned_block'' \<noteq> None"
  then obtain v0 where "state m ''last_scanned_block'' = Some v0" by blast
  from scan_cycles_keeps_key [OF this] obtain v
    where v: "state (scan_cycles rt cfg es m) ''last_scanned_block'' = Some v" by blast
  then have "run rt cfg es m =
      (None, (scan_cycles rt cfg es m)\<lparr>state_file :=
         Json (JObj [(''last_scanned_block'', v),
                     (''processed_txs'',
                      JList (set_order rt (processed_txs (scan_cycles rt cfg es m))))])\<rparr>)"
    by (simp add: run_def save_state_def)
  with v show "\<exists>v. state (scan_cycles rt cfg es m) ''last_scanned_block'' = Some v \<and>
           run rt cfg es m =
             (None, (scan_cycles rt cfg es m)\<lparr>state_file :=
                Json (JObj [(''last_scanned_block'', v),
                            (''processed_txs'',
                             JList (set_order rt (processed_txs (scan_cycles rt cfg es m))))])\<rparr>)"
    by blast
qed

theorem checkpoint_written_on_shutdown_only_witness:
  "state (machine_at 50) ''last_scanned_block'' \<noteq> None
   \<and> fst (run (example_runtime True) example_config
        [chain_env 100 [locked_log] (Response 200 None)] (machine_at 50)) = None
   \<and> state_file (machine_at 50) = NoFile
   \<and> state_file (snd (run (example_runtime True) example_config
        [chain_env 100 [locked_log] (Response 200 None)] (machine_at 50))) =
       Json (JObj [(''last_scanned_block'', JInt 88),
                   (''processed_txs'',
                    JList [JStr ''0xabababababababababababababababababababababababababababababababab''])])"
proof -
  have k: "state (machine_at 50) ''last_scanned_block'' \<noteq> None"
    by (simp add: machine_at_def)
  from checkpoint_written_on_shutdown_only [of "example_runtime True" example_config
      "chain_env 100 [locked_log] (Response 200 None)" "machine_at 50"
      "[chain_env 100 [locked_log] (Response 200 None)]"] k
  obtain m' where "run (example_runtime True) example_config
        [chain_env 100 [locked_log] (Response 200 None)] (machine_at 50) = (None, m')"
    by blast
  then have "fst (run (example_runtime True) example_config
        [chain_env 100 [locked_log] (Response 200 None)] (machine_at 50)) = None"
    by simp
  moreover have "state_file (machine_at 50) = NoFile
   \<and> state_file (snd (run (example_runtime True) example_config
        [chain_env 100 [locked_log] (Response 200 None)] (machine_at 50))) =
       Json (JObj [(''last_scanned_block'', JInt 88),
                   (''processed_txs'',
                    JList [JStr ''0xabababababababababababababababababababababababababababababababab''])])"
    by code_simp
  ultimately show ?thesis using k by blast
qed

text \<open>
  Claim C1 as stated fails: a cycle that scans the blocks 51 to 88 and relays one event
  ends with the checkpoint moved in memory and no state file on disk.
\<close>

theorem cycle_leaves_checkpoint_unwritten:
  "state_file (scan_blocks (example_runtime True) example_config
        (chain_env 100 [locked_log] (Response 200 None)) (machine_at 50)) = NoFile
   \<and> last_scanned (scan_blocks (example_runtime True) example_config
        (chain_env 100 [locked_log] (Response 200 None)) (machine_at 50)) = Some 88
   \<and> processed_txs (scan_blocks (example_runtime True) example_config
        (chain_env 100 [locked_log] (Response 200 None)) (machine_at 50)) =
       {JStr ''0xabababababababababababababababababababababababababababababababab''}"
  by code_simp

section \<open>Relaying a transaction once\<close>

lemma acked_last_snoc:
  "acked_last (cs @ [c]) =
     (acked_last cs \<and>
      (\<forall>d \<in> set cs. snd d = Inr True \<longrightarrow>
         sourceTransactionHash (fst d) \<noteq> sourceTransactionHash (fst c)))"
  by (induction cs) auto

lemma acked_last_split:
  "acked_last (xs @ c # ys) \<Longrightarrow> snd c = Inr True \<Longrightarrow> d \<in> set ys \<Longrightarrow>
     sourceTransactionHash (fst d) \<noteq> sourceTransactionHash (fst c)"
  by (induction xs) (auto simp: image_iff)

lemma acked_last_count:
  "acked_last cs \<Longrightarrow>
     length (filter (\<lambda>c. sourceTransactionHash (fst c) = t \<and> snd c = Inr True) cs) \<le> 1"
proof (induction cs)
  case Nil
  show ?case by simp
next
  case (Cons c cs)
  then have ih: "length (filter (\<lambda>c. sourceTransactionHash (fst c) = t \<and> snd c = Inr True) cs) \<le> 1"
    by simp
  show ?case
  proof (cases "sourceTransactionHash (fst c) = t \<and> snd c = Inr True")
    case True
    with Cons.prems have "t \<notin> set (map (\<lambda>d. sourceTransactionHash (fst d)) cs)" by simp
    then have "filter (\<lambda>c. sourceTransactionHash (fst c) = t \<and> snd c = Inr True) cs = []"
      by (auto simp: filter_empty_conv)
    with True show ?thesis by simp
  next
    case False
    with ih show ?thesis by auto
  qed
qed

lemma parse_transaction_hash:
  "parse_token_locked_event rt log = Some ev \<Longrightarrow>
     ev_transactionHash ev = hex rt (transactionHash log)"
  by (auto simp: parse_token_locked_event_def Let_def split: sum.splits option.splits)

lemma process_log_dedup:
  assumes "dedup_inv m"
  shows "dedup_inv (snd (process_log rt e log m))"
proof (cases "JStr (hex rt (transactionHash log)) \<in> processed_txs m")
  case True
  with assms show ?thesis by (simp add: process_log_def)
next
  case fresh: False
  show ?thesis
  proof (cases "parse_token_locked_event rt log")
    case None
    with fresh assms show ?thesis by (simp add: process_log_def)
  next
    case (Some ev)
    obtain r m' where t: "trigger_token_mint e ev m = (r, m')"
      by (cases "trigger_token_mint e ev m")
    note f = trigger_token_mint_frame [OF t]
    from parse_transaction_hash [OF Some]
    have h: "ev_transactionHash ev = hex rt (transactionHash log)" .
    from assms fresh have nodup: "\<forall>d \<in> set (relay_calls m). snd d = Inr True \<longrightarrow>
        sourceTransactionHash (fst d) \<noteq> hex rt (transactionHash log)"
      by (auto simp: dedup_inv_def)
    have a: "acked_last (relay_calls m')"
      using f assms nodup h by (simp add: acked_last_snoc dedup_inv_def)
    show ?thesis
    proof (cases r)
      case (Inl x)
      with fresh Some t have "snd (process_log rt e log m) = m'"
        by (simp add: process_log_def)
      moreover from f assms Inl have "\<forall>c \<in> set (relay_calls m').
          snd c = Inr True \<longrightarrow> JStr (sourceTransactionHash (fst c)) \<in> processed_txs m'"
        by (auto simp: dedup_inv_def)
      ultimately show ?thesis using a by (simp add: dedup_inv_def)
    next
      case (Inr success)
      show ?thesis
      proof (cases success)
        case True
        with Inr fresh Some t have "snd (process_log rt e log m) =
            m'\<lparr>processed_txs := insert (JStr (hex rt (transactionHash log))) (processed_txs m')\<rparr>"
          by (simp add: process_log_def)
        moreover from f assms h have "\<forall>c \<in> set (relay_calls m').
            snd c = Inr True \<longrightarrow> JStr (sourceTransactionHash (fst c)) \<in>
              insert (JStr (hex rt (transactionHash log))) (processed_txs m')"
          by (auto simp: dedup_inv_def)
        ultimately show ?thesis using a by (simp add: dedup_inv_def)
      next
        case False
        with Inr fresh Some t have "snd (process_log rt e log m) = m'"
          by (simp add: process_log_def)
        moreover from f assms Inr False have "\<forall>c \<in> set (relay_calls m').
            snd c = Inr True \<longrightarrow> JStr (sourceTransactionHash (fst c)) \<in> processed_txs m'"
          by (auto simp: dedup_inv_def)
        ultimately show ?thesis using a by (simp add: dedup_inv_def)
      qed
    qed
  qed
qed

lemma process_logs_dedup:
  "dedup_inv m \<Longrightarrow> dedup_inv (snd (process_logs rt e logs m))"
proof (induction logs arbitrary: m)
  case Nil
  then show ?case by simp
next
  case (Cons log logs)
  obtain y m1 where s: "process_log rt e log m = (y, m1)" by (cases "process_log rt e log m")
  from process_log_dedup [OF Cons.prems, of rt e log] s have i: "dedup_inv m1" by simp
  show ?case
  proof (cases y)
    case None
    with s Cons.IH [OF i] show ?thesis by simp
  next
    case (Some a)
    with s i show ?thesis by simp
  qed
qed

lemma dedup_inv_state_update:
  "dedup_inv (m\<lparr>state := s\<rparr>) = dedup_inv m"
  by (simp add: dedup_inv_def)

lemma dedup_inv_requests_update:
  "dedup_inv (m\<lparr>log_requests := rs\<rparr>) = dedup_inv m"
  by (simp add: dedup_inv_def)

lemma scan_blocks_dedup:
  assumes "dedup_inv m"
  shows "dedup_inv (scan_blocks rt cfg e m)"
proof -
  have step: "dedup_inv m2"
    if "get_logs e a b addr tps m = (logs, m1)" and "process_logs rt e logs m1 = (x, m2)"
    for a b addr tps logs m1 x m2
  proof -
    from get_logs_frame [OF that(1)] assms have "dedup_inv m1"
      by (simp add: dedup_inv_requests_update)
    from process_logs_dedup [OF this, of rt e logs] that(2) show ?thesis by simp
  qed
  show ?thesis
    using assms step
    by (auto simp: scan_blocks_def Let_def dedup_inv_state_update
        split: sum.splits option.splits prod.splits)
qed

lemma scan_cycles_dedup:
  "dedup_inv m \<Longrightarrow> dedup_inv (scan_cycles rt cfg es m)"
  by (induction es arbitrary: m) (simp_all add: scan_blocks_dedup)

text \<open>
  Claim C6, as the code has it. In a run that starts with no relay call made, a relay
  call that succeeded is never followed by another call for the same transaction id,
  within the cycle or in a later one; so at most one call per transaction id succeeds.
  Calls that failed are not counted: the id stays out of \<open>processed_txs\<close> and the next
  log with that id is submitted again.
\<close>

theorem no_submission_after_success:
  assumes "relay_calls m = []"
  shows "(relay_calls (scan_cycles rt cfg es m) = xs @ (p, Inr True) # ys \<longrightarrow>
            (\<forall>d \<in> set ys. sourceTransactionHash (fst d) \<noteq> sourceTransactionHash p))
         \<and> length (filter (\<lambda>c. sourceTransactionHash (fst c) = t \<and> snd c = Inr True)
              (relay_calls (scan_cycles rt cfg es m))) \<le> 1"
proof -
  from assms have "dedup_inv m" by (simp add: dedup_inv_def)
  then have "dedup_inv (scan_cycles rt cfg es m)" by (rule scan_cycles_dedup)
  then have a: "acked_last (relay_calls (scan_cycles rt cfg es m))"
    by (simp add: dedup_inv_def)
  show ?thesis
  proof (intro conjI impI ballI)
    fix d
    assume "relay_calls (scan_cycles rt cfg es m) = xs @ (p, Inr True) # ys" and "d \<in> set ys"
    with a acked_last_split [of xs "(p, Inr True)" ys d]
    show "sourceTransactionHash (fst d) \<noteq> sourceTransactionHash p" by simp
  next
    from a show "length (filter (\<lambda>c. sourceTransactionHash (fst c) = t \<and> snd c = Inr True)
              (relay_calls (scan_cycles rt cfg es m))) \<le> 1"
      by (rule acked_last_count)
  qed
qed

theorem no_submission_after_success_witness:
  "relay_calls (machine_at 50) = []
   \<and> relay_calls (scan_cycles (example_runtime True) example_config
          [chain_env 100 [locked_log, locked_log, locked_log_b] (Response 200 None)]
          (machine_at 50)) =
       [] @ (payload_a, Inr True) # [(payload_b, Inr True)]
   \<and> sourceTransactionHash payload_b \<noteq> sourceTransactionHash payload_a
   \<and> length (filter (\<lambda>c. sourceTransactionHash (fst c) = sourceTransactionHash payload_a
              \<and> snd c = Inr True)
         (relay_calls (scan_cycles (example_runtime True) example_config
            [chain_env 100 [locked_log, locked_log, locked_log_b] (Response 200 None)]
            (machine_at 50)))) \<le> 1"
proof -
  have e: "relay_calls (machine_at 50) = []"
    by (simp add: machine_at_def)
  have c: "relay_calls (scan_cycles (example_runtime True) example_config
          [chain_env 100 [locked_log, locked_log, locked_log_b] (Response 200 None)]
          (machine_at 50)) =
       [] @ (payload_a, Inr True) # [(payload_b, Inr True)]"
    by code_simp
  note t = no_submission_after_success [OF e, of "example_runtime True" example_config
      "[chain_env 100 [locked_log, locked_log, locked_log_b] (Response 200 None)]"
      "[]" payload_a "[(payload_b, Inr True)]" "sourceTransactionHash payload_a"]
  from t [THEN conjunct1] c have "\<forall>d \<in> set [(payload_b, Inr True :: py_exc + bool)].
      sourceTransactionHash (fst d) \<noteq> sourceTransactionHash payload_a"
    by (rule mp)
  then have "sourceTransactionHash payload_b \<noteq> sourceTransactionHash payload_a"
    by simp
  moreover from t have "length (filter (\<lambda>c. sourceTransactionHash (fst c) =
                sourceTransactionHash payload_a \<and> snd c = Inr True)
         (relay_calls (scan_cycles (example_runtime True) example_config
            [chain_env 100 [locked_log, locked_log, locked_log_b] (Response 200 None)]
            (machine_at 50)))) \<le> 1"
    by (rule conjunct2)
  ultimately show ?thesis using e c by simp
qed

text \<open>
  Claim C6 as stated fails: when the relayer rejects, two logs of one cycle that carry
  the same transaction id are both submitted.
\<close>

theorem same_transaction_submitted_twice:
  "map (\<lambda>c. (sourceTransactionHash (fst c), snd c))
     (relay_calls (scan_blocks (example_runtime True) example_config
        (chain_env 100 [locked_log, locked_log] (Response 500 None)) (machine_at 50))) =
     [(''0xabababababababababababababababababababababababababababababababab'', Inr False),
      (''0xabababababababababababababababababababababababababababababababab'', Inr False)]"
  by code_simp

section \<open>Start-up from a checkpoint file\<close>

lemma dict_of_None:
  "k \<notin> fst ` set kvs \<Longrightarrow> dict_of kvs k = None"
  by (simp add: dict_of_def map_of_eq_None_iff)

text \<open>
  Claim C10. When the node answers and the state file holds a JSON object with no
  \<^verbatim>\<open>processed_txs\<close> member, \<^verbatim>\<open>__init__\<close> does not raise: it returns a listener whose
  state is the object read, whose set of processed transactions is empty, and which has
  sent nothing yet.
\<close>

theorem init_without_processed_txs:
  assumes "connect (rpc_url cfg) = None"
    and "''processed_txs'' \<notin> fst ` set kvs"
  shows "init_listener connect cfg e (Json (JObj kvs)) =
           Inr \<lparr>state = dict_of kvs, processed_txs = {}, state_file = Json (JObj kvs),
                log_requests = [], relay_calls = []\<rparr>"
  using assms
  by (simp add: init_listener_def load_state_def py_set_def dict_of_None)

theorem init_without_processed_txs_witness:
  "(\<lambda>_. None) (rpc_url example_config) = (None :: py_exc option)
   \<and> ''processed_txs'' \<notin> fst ` set [(''last_scanned_block'', JInt 50)]
   \<and> init_listener (\<lambda>_. None) example_config (quiet_env 100)
        (Json (JObj [(''last_scanned_block'', JInt 50)])) =
       Inr ((machine_at 50)\<lparr>state_file := Json (JObj [(''last_scanned_block'', JInt 50)])\<rparr>)"
  using init_without_processed_txs [of "\<lambda>_. None" example_config
      "[(''last_scanned_block'', JInt 50)]" "quiet_env 100"]
  by (simp add: machine_at_def dict_of_def)

section \<open>Where the code leaves its own intent\<close>

text \<open>
  A cycle whose log query fails ends like a cycle that found no log: the checkpoint
  moves to the end of the range. So does every cycle that no exception leaves, whatever
  the relayer answered.
\<close>

lemma swallowed_fetch_failure:
  assumes "get_latest_block_number e = Inr h"
    and "state m ''last_scanned_block'' = Some (JInt n)"
    and "n + 1 \<le> h - 12"
    and "eth_get_logs e \<lparr>fromBlock = n + 1, toBlock = h - 12,
           address = bridge_contract_address cfg,
           filter_topics = [event_topic_hash cfg]\<rparr> = None"
  shows "last_scanned (scan_blocks rt cfg e m) = Some (h - 12)"
  using assms
  by (simp add: scan_blocks_def plus_one_def CONFIRMATION_BLOCKS_def get_logs_def Let_def
      last_scanned_def)

lemma completed_cycle_advances:
  assumes "get_latest_block_number e = Inr h"
    and "state m ''last_scanned_block'' = Some (JInt n)"
    and "n + 1 \<le> h - 12"
    and "fst (process_logs rt e
           (fst (get_logs e (n + 1) (h - 12) (bridge_contract_address cfg) [event_topic_hash cfg] m))
           (snd (get_logs e (n + 1) (h - 12) (bridge_contract_address cfg) [event_topic_hash cfg] m))) = None"
  shows "last_scanned (scan_blocks rt cfg e m) = Some (h - 12)"
  using assms
  by (auto simp: scan_blocks_state plus_one_def last_scanned_def split: prod.splits)

text \<open>A log with fewer than three topics is not decoded, and is skipped without a trace.\<close>

lemma decode_needs_three_topics:
  "length (topics log) < 3 \<Longrightarrow> parse_token_locked_event rt log = None"
  by (auto simp: parse_token_locked_event_def subscript_def Let_def split: sum.splits)

lemma undecodable_log_is_skipped:
  "parse_token_locked_event rt log = None \<Longrightarrow> process_log rt e log m = (None, m)"
  by (simp add: process_log_def Let_def)

text \<open>
  The configuration check does stop \<^verbatim>\<open>main\<close> when the RPC URL or the bridge address is
  absent or empty, and \<^verbatim>\<open>_load_state\<close> does fall back on the chain height when the
  configuration has no \<^verbatim>\<open>start_block\<close>; but a configuration built by \<^verbatim>\<open>main\<close> always
  has one.
\<close>

lemma main_checks_url_and_address:
  assumes "\<not> truthy (environ ''SOURCE_CHAIN_RPC_URL'') \<or> \<not> truthy (environ ''BRIDGE_CONTRACT_ADDRESS'')"
  shows "main environ connect e f = Returned \<or> main environ connect e f = Raised ValueError"
  using assms
  by (auto simp: main_def Let_def split: option.splits)

lemma load_state_falls_back_on_height:
  assumes "start_block cfg = None" and "get_latest_block_number e = Inr h"
  shows "load_state cfg e NoFile =
           Inr (JObj [(''last_scanned_block'', JInt h), (''processed_txs'', JList [])])"
  using assms by (simp add: load_state_def)

lemma main_always_sets_start_block:
  "main environ connect e f = Running cfg m \<Longrightarrow> start_block cfg \<noteq> None"
  by (auto simp: main_def Let_def split: option.splits if_splits sum.splits)

text \<open>
  Claim C2, evaluated. \<^verbatim>\<open>get_logs\<close> swallows the failure of the node call and returns
  an empty list, so the cycle does not abort: with \<^verbatim>\<open>last_scanned_block\<close> 50 and height
  100 the failed fetch of the blocks 51 to 88 moves the checkpoint to 88, and the next
  cycle, at height 101, asks for block 89 only. The log of block 60 is never fetched and
  never relayed.
\<close>

theorem failed_log_fetch_advances_checkpoint:
  "eth_get_logs (failing_env 100)
       \<lparr>fromBlock = 51, toBlock = 88, address = Some ''0xb41d9e'',
        filter_topics = [''0x123...'']\<rparr> = None
   \<and> last_scanned (scan_blocks (example_runtime True) example_config (failing_env 100)
        (machine_at 50)) = Some 88
   \<and> map (\<lambda>fp. (fromBlock fp, toBlock fp))
       (log_requests (scan_cycles (example_runtime True) example_config
          [failing_env 100, chain_env 101 [locked_log] (Response 200 None)] (machine_at 50))) =
       [(51, 88), (89, 89)]
   \<and> relay_calls (scan_cycles (example_runtime True) example_config
          [failing_env 100, chain_env 101 [locked_log] (Response 200 None)] (machine_at 50)) = []"
  by code_simp

text \<open>
  Claim C3, evaluated. A relayer that answers 500 leaves the transaction out of
  \<open>processed_txs\<close>, as the claim says, but the cycle still moves \<^verbatim>\<open>last_scanned_block\<close>
  to 88: the next cycle asks for block 89 only, the log of block 60 is not fetched
  again, and the relayer, now willing, is never called a second time.
\<close>

theorem failed_relay_is_not_retried:
  "last_scanned (scan_blocks (example_runtime True) example_config
        (chain_env 100 [locked_log] (Response 500 None)) (machine_at 50)) = Some 88
   \<and> processed_txs (scan_blocks (example_runtime True) example_config
        (chain_env 100 [locked_log] (Response 500 None)) (machine_at 50)) = {}
   \<and> map (\<lambda>fp. (fromBlock fp, toBlock fp))
       (log_requests (scan_cycles (example_runtime True) example_config
          [chain_env 100 [locked_log] (Response 500 None),
           chain_env 101 [locked_log] (Response 200 None)] (machine_at 50))) =
       [(51, 88), (89, 89)]
   \<and> map snd (relay_calls (scan_cycles (example_runtime True) example_config
          [chain_env 100 [locked_log] (Response 500 None),
           chain_env 101 [locked_log] (Response 200 None)] (machine_at 50))) = [Inr False]
   \<and> processed_txs (scan_cycles (example_runtime True) example_config
          [chain_env 100 [locked_log] (Response 500 None),
           chain_env 101 [locked_log] (Response 200 None)] (machine_at 50)) = {}"
  by code_simp

text \<open>
  Claim C4, evaluated. \<^verbatim>\<open>lstrip('0x')\<close> removes every leading \<^verbatim>\<open>0\<close> of the data, not
  only the prefix. For a log with three topics and the data words 1000 and 74565 the
  decoder returns the amount \<open>1000 * 16 ^ 61 + 18\<close> and the destination chain 837, under
  either behaviour of \<^verbatim>\<open>hex()\<close>; without the prefix the two addresses also lose their
  first byte.
\<close>

theorem parse_loses_leading_zeros:
  "length (topics locked_log) = 3
   \<and> data locked_log = replicate 30 0 @ [0x03, 0xe8] @ replicate 29 0 @ [0x01, 0x23, 0x45]
   \<and> parse_token_locked_event (example_runtime True) locked_log =
       Some \<lparr>ev_transactionHash =
               ''0xabababababababababababababababababababababababababababababababab'',
             ev_blockNumber = 60,
             user = ''0xaaaaaaaaaaaaaaaaaaaaaaaaaaaaaaaaaaaaaaaa'',
             token = ''0xbbbbbbbbbbbbbbbbbbbbbbbbbbbbbbbbbbbbbbbb'',
             amount = 1000 * 16 ^ 61 + 18,
             destinationChainId = 837\<rparr>
   \<and> parse_token_locked_event (example_runtime False) locked_log =
       Some \<lparr>ev_transactionHash =
               ''abababababababababababababababababababababababababababababababab'',
             ev_blockNumber = 60,
             user = ''0xaaaaaaaaaaaaaaaaaaaaaaaaaaaaaaaaaaaaaa'',
             token = ''0xbbbbbbbbbbbbbbbbbbbbbbbbbbbbbbbbbbbbbb'',
             amount = 1000 * 16 ^ 61 + 18,
             destinationChainId = 837\<rparr>"
  by code_simp

text \<open>
  Claim C8, evaluated. With the RPC URL and the bridge address set and
  \<^verbatim>\<open>TOKENS_LOCKED_EVENT_HASH\<close> absent, \<^verbatim>\<open>main\<close> passes its check and enters the loop with
  the placeholder \<^verbatim>\<open>0x123...\<close> as the event topic.
\<close>

theorem main_runs_without_event_hash:
  "example_environ ''TOKENS_LOCKED_EVENT_HASH'' = None
   \<and> (case main example_environ (\<lambda>_. None) (quiet_env 1000) NoFile of
         Running cfg m \<Rightarrow> event_topic_hash cfg = ''0x123...''
       | _ \<Rightarrow> False)"
  by code_simp

text \<open>
  Claim C9, evaluated. With \<^verbatim>\<open>START_BLOCK\<close> absent and no state file, \<^verbatim>\<open>main\<close> puts
  the default 0 under \<^verbatim>\<open>start_block\<close>, so \<^verbatim>\<open>_load_state\<close> never falls back on the
  height it queried: at height 1000 the listener starts with \<^verbatim>\<open>last_scanned_block\<close> 0.
\<close>

theorem cold_start_begins_at_zero:
  "example_environ ''START_BLOCK'' = None
   \<and> get_latest_block_number (quiet_env 1000) = Inr 1000
   \<and> (case main example_environ (\<lambda>_. None) (quiet_env 1000) NoFile of
         Running cfg m \<Rightarrow> start_block cfg = Some 0 \<and> last_scanned m = Some 0
       | _ \<Rightarrow> False)"
  by code_simp

end
